theory Spec2Isabelle
  imports Complex_Main "HOL-Library.AList"
begin

section \<open>JavaScript values and the object store\<close>

text \<open>
  The development embeds \<^verbatim>\<open>react/features/base/redux/functions.js\<close>: the
  copy-on-write helpers \<^verbatim>\<open>assign\<close>, \<^verbatim>\<open>set\<close> and \<^verbatim>\<open>_set\<close>, the deep
  comparison \<^verbatim>\<open>equals\<close> and the accessor \<^verbatim>\<open>toState\<close>.

  Reference identity decides most of what these functions promise, so objects live in an
  explicit store and a value that is an object is the address of its cell. A primitive
  number is either \<open>JNaN\<close> or \<open>JNum x\<close>; the two zeros are one value, which is how
  \<^verbatim>\<open>===\<close> treats them.
\<close>

type_synonym addr = nat

datatype jsval =
    JUndefined
  | JNull
  | JBool bool
  | JNaN
  | JNum real
  | JStr string
  | JRef addr

text \<open>
  The kind of an object says what \<^verbatim>\<open>typeof\<close> and the deep comparison need to know, and
  where the object sits in the prototype chain. The kind \<open>ObjectPrototype\<close> is that of
  \<^verbatim>\<open>Object.prototype\<close> itself, the object at the end of every chain; plain objects,
  arrays and functions inherit from it.
\<close>

datatype objkind = PlainObject | ArrayObject | FunctionObject | ObjectPrototype

text \<open>
  An object is its kind and its own properties in enumeration order. The own properties
  of a state, of a change set and of every object the updater makes are enumerable,
  writable, configurable data properties. An array is an object whose property names are
  its indices.
\<close>

record jsobj =
  kind :: objkind
  props :: "(string \<times> jsval) list"

type_synonym heap = "jsobj list"

text \<open>A new object gets the next address; cells are never freed.\<close>

definition alloc :: "heap \<Rightarrow> jsobj \<Rightarrow> addr \<times> heap" where
  "alloc h ob = (length h, h @ [ob])"

text \<open>\<^verbatim>\<open>Object.prototype.hasOwnProperty.call(o, p)\<close>\<close>

definition hasOwnProperty :: "jsobj \<Rightarrow> string \<Rightarrow> bool" where
  "hasOwnProperty ob p = (map_of (props ob) p \<noteq> None)"

text \<open>The value of an own property; \<^verbatim>\<open>undefined\<close> when the object has none of that name.\<close>

definition own_prop :: "jsobj \<Rightarrow> string \<Rightarrow> jsval" where
  "own_prop ob p = (case map_of (props ob) p of None \<Rightarrow> JUndefined | Some v \<Rightarrow> v)"

text \<open>
  \<^verbatim>\<open>Object.prototype\<close> of the running program, when the store holds it: the first cell of
  kind \<open>ObjectPrototype\<close>. Its own properties are the members every other object
  inherits (\<^verbatim>\<open>toString\<close>, \<^verbatim>\<open>constructor\<close>, \<^verbatim>\<open>valueOf\<close>, ... and whatever the
  program added). They are not enumerable, so neither \<^verbatim>\<open>for (... in o)\<close> nor
  \<^verbatim>\<open>{ ...o }\<close> sees them. The members that only arrays or only functions inherit
  (\<^verbatim>\<open>Array.prototype\<close>, \<^verbatim>\<open>Function.prototype\<close>) are not modelled. A store without such a
  cell is one in which nothing is inherited.
\<close>

definition object_prototype :: "heap \<Rightarrow> jsobj option" where
  "object_prototype h = List.find (\<lambda>ob. kind ob = ObjectPrototype) h"

text \<open>What an object finds for a name in its prototype chain.\<close>

definition proto_prop :: "heap \<Rightarrow> jsobj \<Rightarrow> string \<Rightarrow> jsval" where
  "proto_prop h ob p =
     (if kind ob = ObjectPrototype then JUndefined
      else (case object_prototype h of None \<Rightarrow> JUndefined | Some pr \<Rightarrow> own_prop pr p))"

text \<open>
  \<^verbatim>\<open>o[p]\<close>: the own property when there is one, else what the prototype chain gives, else
  \<^verbatim>\<open>undefined\<close>.
\<close>

definition get_prop :: "heap \<Rightarrow> jsobj \<Rightarrow> string \<Rightarrow> jsval" where
  "get_prop h ob p =
     (case map_of (props ob) p of Some v \<Rightarrow> v | None \<Rightarrow> proto_prop h ob p)"

text \<open>The own property names of an object, in the order \<^verbatim>\<open>for (... in o)\<close> visits them.\<close>

definition own_keys :: "jsobj \<Rightarrow> string list" where
  "own_keys ob = map fst (props ob)"

text \<open>
  \<^verbatim>\<open>o[p] = v\<close>, and a \<^verbatim>\<open>[p]: v\<close> entry of an object literal: an existing property keeps
  its place, a new one goes last.
\<close>

definition put_prop :: "jsobj \<Rightarrow> string \<Rightarrow> jsval \<Rightarrow> jsobj" where
  "put_prop ob p v = ob\<lparr>props := AList.update p v (props ob)\<rparr>"

text \<open>
  \<^verbatim>\<open>delete o[p]\<close>: the flag is the value of the \<^verbatim>\<open>delete\<close> expression. Every
  property of the model is configurable, so the flag is always true.
\<close>

definition delete_property :: "jsobj \<Rightarrow> string \<Rightarrow> bool \<times> jsobj" where
  "delete_property ob p = (True, ob\<lparr>props := AList.delete p (props ob)\<rparr>)"

text \<open>\<^verbatim>\<open>{ ...o }\<close>: a plain object with the own enumerable properties of \<open>o\<close>.\<close>

definition spread :: "jsobj \<Rightarrow> jsobj" where
  "spread ob = \<lparr>kind = PlainObject, props = props ob\<rparr>"

text \<open>\<^verbatim>\<open>typeof v\<close>\<close>

definition typeof :: "heap \<Rightarrow> jsval \<Rightarrow> string" where
  "typeof h v =
     (case v of
        JUndefined \<Rightarrow> ''undefined''
      | JNull \<Rightarrow> ''object''
      | JBool b \<Rightarrow> ''boolean''
      | JNaN \<Rightarrow> ''number''
      | JNum x \<Rightarrow> ''number''
      | JStr s \<Rightarrow> ''string''
      | JRef a \<Rightarrow> (if kind (h ! a) = FunctionObject then ''function'' else ''object''))"

text \<open>\<^verbatim>\<open>a === b\<close>: \<^verbatim>\<open>NaN\<close> is not identical to itself; objects compare by address.\<close>

definition strict_eq :: "jsval \<Rightarrow> jsval \<Rightarrow> bool" where
  "strict_eq a b = (a \<noteq> JNaN \<and> a = b)"

text \<open>The truthiness test of \<^verbatim>\<open>if (v)\<close>.\<close>

definition truthy :: "jsval \<Rightarrow> bool" where
  "truthy v =
     (case v of
        JUndefined \<Rightarrow> False
      | JNull \<Rightarrow> False
      | JBool b \<Rightarrow> b
      | JNaN \<Rightarrow> False
      | JNum x \<Rightarrow> x \<noteq> 0
      | JStr s \<Rightarrow> s \<noteq> []
      | JRef a \<Rightarrow> True)"

text \<open>
  \<^verbatim>\<open>v[p]\<close> for any value that can be read from: an object is read as above; a primitive
  has no member of the names the code asks for (\<^verbatim>\<open>getState\<close>, \<^verbatim>\<open>dispatch\<close>).
\<close>

definition read_member :: "heap \<Rightarrow> jsval \<Rightarrow> string \<Rightarrow> jsval" where
  "read_member h v p = (case v of JRef a \<Rightarrow> get_prop h (h ! a) p | _ \<Rightarrow> JUndefined)"

section \<open>The copy-on-write updater\<close>

text \<open>
  Lines 98 to 109 of \<^verbatim>\<open>_set\<close>: the comparison with \<^verbatim>\<open>!==\<close>, which reads
  \<^verbatim>\<open>state[property]\<close> through the prototype chain, and the write, into a fresh literal
  \<^verbatim>\<open>{ ...state, [property]: value }\<close> or into \<open>state\<close> itself. Either write makes an own
  property.
\<close>

definition write_branch :: "heap \<Rightarrow> addr \<Rightarrow> string \<Rightarrow> jsval \<Rightarrow> bool \<Rightarrow> addr \<times> heap" where
  "write_branch h state property val copyOnWrite =
     (if \<not> strict_eq (get_prop h (h ! state) property) val then
        (if copyOnWrite then alloc h (put_prop (spread (h ! state)) property val)
         else (state, h[state := put_prop (h ! state) property val]))
      else (state, h))"

text \<open>
  \<^verbatim>\<open>_set(state, property, value, copyOnWrite)\<close>. Lines 89 to 96 delete a property that
  is to be set to \<^verbatim>\<open>undefined\<close>, in a copy or in place, and return from inside the
  \<^verbatim>\<open>if\<close> when \<^verbatim>\<open>delete\<close> yields true; otherwise control reaches line 98.
\<close>

definition set_internal :: "heap \<Rightarrow> addr \<Rightarrow> string \<Rightarrow> jsval \<Rightarrow> bool \<Rightarrow> addr \<times> heap" where
  "set_internal h state property val copyOnWrite =
     (if typeof h val = ''undefined'' \<and> hasOwnProperty (h ! state) property then
        (case (if copyOnWrite then alloc h (spread (h ! state)) else (state, h)) of
           (newState, h1) \<Rightarrow>
             (case delete_property (h1 ! newState) property of
                (deleted, ob) \<Rightarrow>
                  (if deleted then (newState, h1[newState := ob])
                   else write_branch (h1[newState := ob]) state property val copyOnWrite)))
      else write_branch h state property val copyOnWrite)"

text \<open>
  \<^verbatim>\<open>set(state, property, value)\<close>, the exported function of three parameters: it calls
  \<^verbatim>\<open>_set\<close> with \<^verbatim>\<open>copyOnWrite\<close> true.
\<close>

definition set_js :: "heap \<Rightarrow> addr \<Rightarrow> string \<Rightarrow> jsval \<Rightarrow> addr \<times> heap" where
  "set_js h state property val = set_internal h state property val True"

text \<open>
  A call of \<^verbatim>\<open>set\<close> with four arguments, as line 22 makes it. The function declares three
  parameters and never reads \<^verbatim>\<open>arguments\<close>, so JavaScript evaluates the fourth argument
  and drops it.
\<close>

definition set_js_surplus :: "heap \<Rightarrow> addr \<Rightarrow> string \<Rightarrow> jsval \<Rightarrow> bool \<Rightarrow> addr \<times> heap" where
  "set_js_surplus h state property val surplus = set_js h state property val"

text \<open>
  The loop of \<^verbatim>\<open>assign\<close>. Line 22 is
  \<^verbatim>\<open>t = set(t, property, source[property], t === target)\<close>: the callee is the exported
  \<^verbatim>\<open>set\<close>, not \<^verbatim>\<open>_set\<close>. The property names are those of \<open>source\<close> when the loop
  starts; each value is read from the store of the moment.
\<close>

fun assign_loop :: "heap \<Rightarrow> addr \<Rightarrow> addr \<Rightarrow> addr \<Rightarrow> string list \<Rightarrow> addr \<times> heap" where
  "assign_loop h target source t [] = (t, h)"
| "assign_loop h target source t (property # rest) =
     (case set_js_surplus h t property (get_prop h (h ! source) property) (t = target) of
        (t', h') \<Rightarrow> assign_loop h' target source t' rest)"

definition assign :: "heap \<Rightarrow> addr \<Rightarrow> addr \<Rightarrow> addr \<times> heap" where
  "assign h target source = assign_loop h target source target (own_keys (h ! source))"

text \<open>
  A state object: a live cell holding a plain object whose property names are pairwise
  distinct, as the names of a JavaScript object are.
\<close>

definition state_object :: "heap \<Rightarrow> addr \<Rightarrow> bool" where
  "state_object h a = (a < length h \<and> kind (h ! a) = PlainObject \<and> distinct (own_keys (h ! a)))"

section \<open>The accessor\<close>

text \<open>
  \<^verbatim>\<open>toState(stateful)\<close>. The body of a function value is not part of this file, so calling
  one is the parameter \<open>call\<close>: applied to the function's address and the store, it gives
  what a call with no arguments throws (\<open>Inl\<close>) or returns together with the store it
  leaves (\<open>Inr\<close>).
\<close>

definition toState :: "(addr \<Rightarrow> heap \<Rightarrow> 'e + jsval \<times> heap) \<Rightarrow> heap \<Rightarrow> jsval \<Rightarrow> 'e + jsval \<times> heap" where
  "toState call h stateful =
     (if truthy stateful then
        (if typeof h stateful = ''function'' then
           (case stateful of JRef f \<Rightarrow> call f h | _ \<Rightarrow> Inr (stateful, h))
         else
           (let getState = read_member h stateful ''getState'' in
              if typeof h getState = ''function''
                 \<and> typeof h (read_member h stateful ''dispatch'') = ''function''
              then (case getState of JRef g \<Rightarrow> call g h | _ \<Rightarrow> Inr (stateful, h))
              else Inr (stateful, h)))
      else Inr (stateful, h))"

section \<open>The deep comparison\<close>

text \<open>
  Modelled from the spec: \<^verbatim>\<open>_.isEqual\<close> of lodash, which \<^verbatim>\<open>equals\<close> calls and which
  is not part of the repository. Section 4.1 of the specification describes it: two values
  are equal when they are of the same type category, with the same set of keys and
  pairwise equal values for mappings, the same elements in the same order for sequences,
  and primitive equality for scalars; functions compare by identity. Two identical
  references are equal at once. Object structures may be cyclic, so the comparison carries
  the pairs of objects it is already comparing and takes such a pair as equal when it
  meets it again. The keys compared are the own keys, and the values their own values.
\<close>

function isEqual :: "heap \<Rightarrow> (addr \<times> addr) list \<Rightarrow> jsval \<Rightarrow> jsval \<Rightarrow> bool" where
  "isEqual h seen a b =
     (case a of
        JRef x \<Rightarrow>
          (case b of
             JRef y \<Rightarrow>
               (if x = y then True
                else if \<not> (x < length h \<and> y < length h) then False
                else if kind (h ! x) = FunctionObject \<or> kind (h ! y) = FunctionObject then False
                else if (x, y) \<in> set seen then True
                else kind (h ! x) = kind (h ! y)
                   \<and> set (own_keys (h ! x)) = set (own_keys (h ! y))
                   \<and> list_all (\<lambda>k. isEqual h ((x, y) # seen) (own_prop (h ! x) k) (own_prop (h ! y) k))
                        (own_keys (h ! x)))
           | _ \<Rightarrow> False)
      | _ \<Rightarrow> a = b)"
  by pat_completeness auto
termination
proof (relation "measure (\<lambda>(h, seen, a, b). card ({..<length h} \<times> {..<length h} - set seen))", goal_cases)
  case 1
  show ?case by simp
next
  case (2 h seen a b x y k)
  let ?S = "{..<length h} \<times> {..<length h} - set seen"
  have fin: "finite ?S" by simp
  have mem: "(x, y) \<in> ?S" using 2 by simp
  have eq: "{..<length h} \<times> {..<length h} - set ((x, y) # seen) = ?S - {(x, y)}" by auto
  have "card (?S - {(x, y)}) < card ?S" using fin mem by (rule card_Diff1_less)
  then show ?case unfolding eq [symmetric] by simp
qed

declare isEqual.simps [simp del]

text \<open>\<^verbatim>\<open>equals(a, b)\<close>, line 38: \<^verbatim>\<open>return _.isEqual(a, b)\<close>.\<close>

definition equals :: "heap \<Rightarrow> jsval \<Rightarrow> jsval \<Rightarrow> bool" where
  "equals h a b = isEqual h [] a b"

text \<open>
  Structural equivalence in the words of section 4.1, to compare \<^verbatim>\<open>equals\<close> with. A
  correspondence is a set of pairs of objects in which the two objects of every pair are
  alike: both live, of the same kind, not functions, with the same set of keys, and under
  every key two values that are related, that is the same value or a pair of the
  correspondence. Two values are structurally equivalent when some correspondence relates
  them.
\<close>

definition related :: "(addr \<times> addr) set \<Rightarrow> jsval \<Rightarrow> jsval \<Rightarrow> bool" where
  "related R a b =
     (a = b \<or> (case a of JRef x \<Rightarrow> (case b of JRef y \<Rightarrow> (x, y) \<in> R | _ \<Rightarrow> False) | _ \<Rightarrow> False))"

definition alike :: "heap \<Rightarrow> (addr \<times> addr) set \<Rightarrow> addr \<Rightarrow> addr \<Rightarrow> bool" where
  "alike h R x y =
     (x < length h \<and> y < length h
      \<and> kind (h ! x) = kind (h ! y) \<and> kind (h ! x) \<noteq> FunctionObject
      \<and> set (own_keys (h ! x)) = set (own_keys (h ! y))
      \<and> list_all (\<lambda>k. related R (own_prop (h ! x) k) (own_prop (h ! y) k)) (own_keys (h ! x)))"

definition correspondence :: "heap \<Rightarrow> (addr \<times> addr) set \<Rightarrow> bool" where
  "correspondence h R = (\<forall>(x, y) \<in> R. alike h R x y)"

definition structurally_equivalent :: "heap \<Rightarrow> jsval \<Rightarrow> jsval \<Rightarrow> bool" where
  "structurally_equivalent h a b = (\<exists>R. correspondence h R \<and> related R a b)"

section \<open>Example stores\<close>

text \<open>
  The stores that only use property names no object inherits (\<^verbatim>\<open>a\<close>, \<^verbatim>\<open>b\<close>, \<^verbatim>\<open>c\<close>,
  \<^verbatim>\<open>x\<close>, \<^verbatim>\<open>y\<close>, \<^verbatim>\<open>getState\<close>, \<^verbatim>\<open>dispatch\<close>, array indices) list no
  \<^verbatim>\<open>Object.prototype\<close>; the last store does.
\<close>

text \<open>
  Cells 0 and 3 are two separately built copies of \<^verbatim>\<open>{a: [1, {b: 2}]}\<close>; cells 6 and 7
  are \<^verbatim>\<open>{a: 1}\<close> and \<^verbatim>\<open>{a: '1'}\<close>.
\<close>

definition heap_deep :: heap where
  "heap_deep =
     [\<lparr>kind = PlainObject, props = [(''a'', JRef 1)]\<rparr>,
      \<lparr>kind = ArrayObject, props = [(''0'', JNum 1), (''1'', JRef 2)]\<rparr>,
      \<lparr>kind = PlainObject, props = [(''b'', JNum 2)]\<rparr>,
      \<lparr>kind = PlainObject, props = [(''a'', JRef 4)]\<rparr>,
      \<lparr>kind = ArrayObject, props = [(''0'', JNum 1), (''1'', JRef 5)]\<rparr>,
      \<lparr>kind = PlainObject, props = [(''b'', JNum 2)]\<rparr>,
      \<lparr>kind = PlainObject, props = [(''a'', JNum 1)]\<rparr>,
      \<lparr>kind = PlainObject, props = [(''a'', JStr ''1'')]\<rparr>]"

text \<open>A state \<^verbatim>\<open>{a: undefined}\<close> and a change set \<^verbatim>\<open>{a: undefined}\<close>.\<close>

definition heap_undef :: heap where
  "heap_undef =
     [\<lparr>kind = PlainObject, props = [(''a'', JUndefined)]\<rparr>,
      \<lparr>kind = PlainObject, props = [(''a'', JUndefined)]\<rparr>]"

text \<open>A state \<^verbatim>\<open>{a: NaN}\<close> and a change set \<^verbatim>\<open>{a: NaN}\<close>.\<close>

definition heap_nan :: heap where
  "heap_nan =
     [\<lparr>kind = PlainObject, props = [(''a'', JNaN)]\<rparr>,
      \<lparr>kind = PlainObject, props = [(''a'', JNaN)]\<rparr>]"

text \<open>
  The state \<^verbatim>\<open>{a: 1, b: 2, c: 3}\<close> with the change sets \<^verbatim>\<open>{a: 1, b: 99, c: 3}\<close>,
  \<^verbatim>\<open>{a: 10, b: 20, c: 3}\<close> and \<^verbatim>\<open>{a: 1, c: 3}\<close>.
\<close>

definition heap_batch :: heap where
  "heap_batch =
     [\<lparr>kind = PlainObject, props = [(''a'', JNum 1), (''b'', JNum 2), (''c'', JNum 3)]\<rparr>,
      \<lparr>kind = PlainObject, props = [(''a'', JNum 1), (''b'', JNum 99), (''c'', JNum 3)]\<rparr>,
      \<lparr>kind = PlainObject, props = [(''a'', JNum 10), (''b'', JNum 20), (''c'', JNum 3)]\<rparr>,
      \<lparr>kind = PlainObject, props = [(''a'', JNum 1), (''c'', JNum 3)]\<rparr>]"

text \<open>The states \<^verbatim>\<open>{a: 1, b: 2}\<close> and \<^verbatim>\<open>{b: 2}\<close>.\<close>

definition heap_ab :: heap where
  "heap_ab =
     [\<lparr>kind = PlainObject, props = [(''a'', JNum 1), (''b'', JNum 2)]\<rparr>,
      \<lparr>kind = PlainObject, props = [(''b'', JNum 2)]\<rparr>]"

text \<open>
  Cell 0 is a function that returns \<^verbatim>\<open>{x: 1}\<close> (cell 3), cell 1 a \<^verbatim>\<open>getState\<close> that
  returns \<^verbatim>\<open>{y: 2}\<close> (cell 4), cell 2 a \<^verbatim>\<open>dispatch\<close>, and cell 5 the store
  \<^verbatim>\<open>{getState, dispatch}\<close>. Calling anything else than the first two functions throws.
\<close>

definition heap_store :: heap where
  "heap_store =
     [\<lparr>kind = FunctionObject, props = []\<rparr>,
      \<lparr>kind = FunctionObject, props = []\<rparr>,
      \<lparr>kind = FunctionObject, props = []\<rparr>,
      \<lparr>kind = PlainObject, props = [(''x'', JNum 1)]\<rparr>,
      \<lparr>kind = PlainObject, props = [(''y'', JNum 2)]\<rparr>,
      \<lparr>kind = PlainObject, props = [(''getState'', JRef 1), (''dispatch'', JRef 2)]\<rparr>]"

text \<open>
  A store that holds \<^verbatim>\<open>Object.prototype\<close> (cell 0) with its built-in members, the
  functions of cells 1 to 11; \<^verbatim>\<open>__proto__\<close> is listed with the value it reads as on a plain
  object. Cell 12 is the state \<^verbatim>\<open>{b: 2}\<close> and cell 13 the change set
  \<^verbatim>\<open>{toString: undefined}\<close>.
\<close>

definition heap_realm :: heap where
  "heap_realm =
     [\<lparr>kind = ObjectPrototype, props =
         [(''constructor'', JRef 1), (''__defineGetter__'', JRef 2),
          (''__defineSetter__'', JRef 3), (''hasOwnProperty'', JRef 4),
          (''__lookupGetter__'', JRef 5), (''__lookupSetter__'', JRef 6),
          (''isPrototypeOf'', JRef 7), (''propertyIsEnumerable'', JRef 8),
          (''toString'', JRef 9), (''valueOf'', JRef 10), (''toLocaleString'', JRef 11),
          (''__proto__'', JRef 0)]\<rparr>,
      \<lparr>kind = FunctionObject, props = []\<rparr>,
      \<lparr>kind = FunctionObject, props = []\<rparr>,
      \<lparr>kind = FunctionObject, props = []\<rparr>,
      \<lparr>kind = FunctionObject, props = []\<rparr>,
      \<lparr>kind = FunctionObject, props = []\<rparr>,
      \<lparr>kind = FunctionObject, props = []\<rparr>,
      \<lparr>kind = FunctionObject, props = []\<rparr>,
      \<lparr>kind = FunctionObject, props = []\<rparr>,
      \<lparr>kind = FunctionObject, props = []\<rparr>,
      \<lparr>kind = FunctionObject, props = []\<rparr>,
      \<lparr>kind = FunctionObject, props = []\<rparr>,
      \<lparr>kind = PlainObject, props = [(''b'', JNum 2)]\<rparr>,
      \<lparr>kind = PlainObject, props = [(''toString'', JUndefined)]\<rparr>]"

definition call_example :: "addr \<Rightarrow> heap \<Rightarrow> string + jsval \<times> heap" where
  "call_example f h =
     (if f = 0 then Inr (JRef 3, h) else if f = 1 then Inr (JRef 4, h) else Inl ''thrown'')"

section \<open>Facts about the updater\<close>

text \<open>
  What the condition of line 89 tests.
\<close>

lemma typeof_undefined: "(typeof h v = ''undefined'') = (v = JUndefined)"
  by (cases v) (simp_all add: typeof_def)

text \<open>
  Reading a property: an own property hides the chain, and the value of an own key does not
  depend on the store.
\<close>

lemma get_prop_own: "map_of (props ob) p = Some v \<Longrightarrow> get_prop h ob p = v"
  by (simp add: get_prop_def)

lemma get_prop_absent: "\<not> hasOwnProperty ob p \<Longrightarrow> get_prop h ob p = proto_prop h ob p"
  by (simp add: hasOwnProperty_def get_prop_def)

lemma get_prop_own_key: "hasOwnProperty ob p \<Longrightarrow> get_prop h ob p = own_prop ob p"
  by (auto simp: hasOwnProperty_def get_prop_def own_prop_def)

lemma hasOwnProperty_keys: "hasOwnProperty ob p = (p \<in> set (own_keys ob))"
  by (simp add: hasOwnProperty_def own_keys_def map_of_eq_None_iff)

text \<open>
  A new cell that is not \<^verbatim>\<open>Object.prototype\<close> leaves the prototype chain of every object
  as it is.
\<close>

lemma object_prototype_append:
  "kind ob \<noteq> ObjectPrototype \<Longrightarrow> object_prototype (h @ [ob]) = object_prototype h"
  unfolding object_prototype_def by (induction h) simp_all

lemma proto_prop_plain:
  "kind ob = PlainObject \<Longrightarrow> kind ob' = PlainObject \<Longrightarrow> kind new = PlainObject \<Longrightarrow>
   proto_prop (h @ [new]) ob' p = proto_prop h ob p"
  by (simp add: proto_prop_def object_prototype_append)

text \<open>
  The three ways a call of \<^verbatim>\<open>set\<close> ends: the property is deleted in a fresh copy, it is
  written in a fresh copy, or the state is returned as it is.
\<close>

lemma set_js_delete:
  "hasOwnProperty (h ! s) p \<Longrightarrow>
   set_js h s p JUndefined = (length h, h @ [\<lparr>kind = PlainObject, props = AList.delete p (props (h ! s))\<rparr>])"
  by (simp add: set_js_def set_internal_def typeof_undefined alloc_def spread_def delete_property_def)

lemma set_js_write:
  "\<not> (v = JUndefined \<and> hasOwnProperty (h ! s) p) \<Longrightarrow> \<not> strict_eq (get_prop h (h ! s) p) v \<Longrightarrow>
   set_js h s p v = (length h, h @ [\<lparr>kind = PlainObject, props = AList.update p v (props (h ! s))\<rparr>])"
  by (auto simp: set_js_def set_internal_def typeof_undefined write_branch_def alloc_def spread_def put_prop_def)

lemma set_js_same:
  "\<not> (v = JUndefined \<and> hasOwnProperty (h ! s) p) \<Longrightarrow> strict_eq (get_prop h (h ! s) p) v \<Longrightarrow>
   set_js h s p v = (s, h)"
  by (auto simp: set_js_def set_internal_def typeof_undefined write_branch_def)

lemma set_js_cases:
  "set_js h s p v = (s, h) \<and> \<not> (v = JUndefined \<and> hasOwnProperty (h ! s) p) \<and> strict_eq (get_prop h (h ! s) p) v
   \<or> set_js h s p v = (length h, h @ [\<lparr>kind = PlainObject, props = AList.delete p (props (h ! s))\<rparr>])
        \<and> v = JUndefined \<and> hasOwnProperty (h ! s) p
   \<or> set_js h s p v = (length h, h @ [\<lparr>kind = PlainObject, props = AList.update p v (props (h ! s))\<rparr>])
        \<and> \<not> (v = JUndefined \<and> hasOwnProperty (h ! s) p) \<and> \<not> strict_eq (get_prop h (h ! s) p) v"
  using set_js_delete [of h s p] set_js_write [of v h s p] set_js_same [of v h s p] by blast

text \<open>
  One call of \<^verbatim>\<open>set\<close> on a live object: the store only grows, by at most one cell, and the
  own properties of the result under every other name are those of the state.
\<close>

lemma set_js_step:
  assumes "t < length h" and "set_js h t k v = (t1, h1)"
  shows "(\<exists>news. h1 = h @ news) \<and> t1 < length h1 \<and> length h1 \<le> Suc (length h)
       \<and> (\<forall>q. q \<noteq> k \<longrightarrow> map_of (props (h1 ! t1)) q = map_of (props (h ! t)) q)"
proof -
  consider (same) "set_js h t k v = (t, h)"
    | (del) "set_js h t k v = (length h, h @ [\<lparr>kind = PlainObject, props = AList.delete k (props (h ! t))\<rparr>])"
    | (upd) "set_js h t k v = (length h, h @ [\<lparr>kind = PlainObject, props = AList.update k v (props (h ! t))\<rparr>])"
    using set_js_cases [of h t k v] by blast
  then show ?thesis
  proof cases
    case same
    have eq: "t1 = t" "h1 = h" using same assms(2) by simp_all
    show ?thesis using assms(1) unfolding eq by simp
  next
    case del
    have eq: "t1 = length h" "h1 = h @ [\<lparr>kind = PlainObject, props = AList.delete k (props (h ! t))\<rparr>]"
      using del assms(2) by simp_all
    show ?thesis unfolding eq by (simp add: delete_conv')
  next
    case upd
    have eq: "t1 = length h" "h1 = h @ [\<lparr>kind = PlainObject, props = AList.update k v (props (h ! t))\<rparr>]"
      using upd assms(2) by simp_all
    show ?thesis unfolding eq by (simp add: update_conv')
  qed
qed

text \<open>
  When the state is a plain object, so is the result, and both find the same members in
  the prototype chain.
\<close>

lemma set_js_plain:
  assumes "t < length h" and "kind (h ! t) = PlainObject" and "set_js h t k v = (t1, h1)"
  shows "kind (h1 ! t1) = PlainObject \<and> proto_prop h1 (h1 ! t1) q = proto_prop h (h ! t) q"
proof -
  consider (same) "set_js h t k v = (t, h)"
    | (new) ob where "set_js h t k v = (length h, h @ [ob])" "kind ob = PlainObject"
    using set_js_cases [of h t k v] by fastforce
  then show ?thesis
  proof cases
    case same
    then show ?thesis using assms by simp
  next
    case new
    have eq: "t1 = length h" "h1 = h @ [ob]" using new(1) assms(3) by simp_all
    show ?thesis unfolding eq using assms(2) new(2) by (simp add: proto_prop_plain)
  qed
qed

text \<open>
  A name other than the one set reads in the result as it reads in the state.
\<close>

lemma set_js_keeps:
  assumes "t < length h" and "kind (h ! t) = PlainObject" and "set_js h t k v = (t1, h1)" and "q \<noteq> k"
  shows "get_prop h1 (h1 ! t1) q = get_prop h (h ! t) q
       \<and> hasOwnProperty (h1 ! t1) q = hasOwnProperty (h ! t) q"
proof -
  have m: "map_of (props (h1 ! t1)) q = map_of (props (h ! t)) q"
    using set_js_step [OF assms(1,3)] assms(4) by blast
  have p: "proto_prop h1 (h1 ! t1) q = proto_prop h (h ! t) q"
    using set_js_plain [OF assms(1,2,3)] by blast
  show ?thesis by (simp add: get_prop_def hasOwnProperty_def m p split: option.split)
qed

text \<open>
  After \<^verbatim>\<open>set(t, k, v)\<close> a second \<^verbatim>\<open>set\<close> with the same name and value has nothing to do,
  unless \<open>v\<close> is \<^verbatim>\<open>NaN\<close>, or \<open>v\<close> is \<^verbatim>\<open>undefined\<close> and \<open>k\<close> names an inherited member.
\<close>

lemma set_js_settles:
  assumes "t < length h" and "kind (h ! t) = PlainObject" and "v \<noteq> JNaN"
    and "v = JUndefined \<longrightarrow> proto_prop h (h ! t) k = JUndefined"
    and "set_js h t k v = (t1, h1)"
  shows "strict_eq (get_prop h1 (h1 ! t1) k) v \<and> \<not> (v = JUndefined \<and> hasOwnProperty (h1 ! t1) k)"
proof -
  note pl = set_js_plain [OF assms(1,2,5)]
  consider (same) "set_js h t k v = (t, h)" "\<not> (v = JUndefined \<and> hasOwnProperty (h ! t) k)"
      "strict_eq (get_prop h (h ! t) k) v"
    | (del) "set_js h t k v = (length h, h @ [\<lparr>kind = PlainObject, props = AList.delete k (props (h ! t))\<rparr>])"
      "v = JUndefined"
    | (upd) "set_js h t k v = (length h, h @ [\<lparr>kind = PlainObject, props = AList.update k v (props (h ! t))\<rparr>])"
      "\<not> (v = JUndefined \<and> hasOwnProperty (h ! t) k)" "\<not> strict_eq (get_prop h (h ! t) k) v"
    using set_js_cases [of h t k v] by blast
  then show ?thesis
  proof cases
    case same
    have eq: "t1 = t" "h1 = h" using same(1) assms(5) by simp_all
    show ?thesis unfolding eq using same(2,3) by simp
  next
    case del
    have eq: "t1 = length h" "h1 = h @ [\<lparr>kind = PlainObject, props = AList.delete k (props (h ! t))\<rparr>]"
      using del(1) assms(5) by simp_all
    have own: "map_of (props (h1 ! t1)) k = None" unfolding eq by (simp add: delete_conv')
    have "get_prop h1 (h1 ! t1) k = proto_prop h (h ! t) k"
      using own pl by (simp add: get_prop_def)
    then show ?thesis using own del(2) assms(4) by (simp add: strict_eq_def hasOwnProperty_def)
  next
    case upd
    have eq: "t1 = length h" "h1 = h @ [\<lparr>kind = PlainObject, props = AList.update k v (props (h ! t))\<rparr>]"
      using upd(1) assms(5) by simp_all
    have nu: "v \<noteq> JUndefined"
    proof
      assume u: "v = JUndefined"
      then have "get_prop h (h ! t) k = JUndefined" using upd(2) assms(4) by (simp add: get_prop_absent)
      then show False using upd(3) u by (simp add: strict_eq_def)
    qed
    have "map_of (props (h1 ! t1)) k = Some v" unfolding eq by (simp add: update_conv')
    then have "get_prop h1 (h1 ! t1) k = v" by (rule get_prop_own)
    then show ?thesis using nu assms(3) by (simp add: strict_eq_def)
  qed
qed

text \<open>
  The loop of \<^verbatim>\<open>assign\<close>: it changes nothing when no property differs; it never touches
  a cell that exists; names it does not visit read in the result as in the state; and a
  name it has visited stays settled.
\<close>

lemma assign_loop_noop:
  assumes "\<forall>k \<in> set ks. strict_eq (get_prop h (h ! t) k) (get_prop h (h ! c) k)
              \<and> \<not> (get_prop h (h ! c) k = JUndefined \<and> hasOwnProperty (h ! t) k)"
  shows "assign_loop h tg c t ks = (t, h)"
  using assms by (induction ks) (simp_all add: set_js_surplus_def set_js_same)

lemma assign_loop_frame:
  assumes "t < length h" and "assign_loop h tg c t ks = (r, h')"
  shows "(\<exists>news. h' = h @ news) \<and> r < length h'
       \<and> (\<forall>q. q \<notin> set ks \<longrightarrow> map_of (props (h' ! r)) q = map_of (props (h ! t)) q)"
  using assms
proof (induction ks arbitrary: h t)
  case Nil
  then show ?case by simp
next
  case (Cons k ks)
  obtain t1 h1 where st: "set_js h t k (get_prop h (h ! c) k) = (t1, h1)"
    by (cases "set_js h t k (get_prop h (h ! c) k)")
  have rest: "assign_loop h1 tg c t1 ks = (r, h')"
    using Cons.prems(2) st by (simp add: set_js_surplus_def)
  note step = set_js_step [OF Cons.prems(1) st]
  from step have t1: "t1 < length h1" by blast
  note ih = Cons.IH [OF t1 rest]
  from step obtain n1 where n1: "h1 = h @ n1" by blast
  from ih obtain n2 where n2: "h' = h1 @ n2" by blast
  have "h' = h @ (n1 @ n2)" using n1 n2 by simp
  moreover have "r < length h'" using ih by blast
  moreover have "map_of (props (h' ! r)) q = map_of (props (h ! t)) q" if "q \<notin> set (k # ks)" for q
  proof -
    have "map_of (props (h' ! r)) q = map_of (props (h1 ! t1)) q" using ih that by simp
    also have "\<dots> = map_of (props (h ! t)) q" using step that by simp
    finally show ?thesis .
  qed
  ultimately show ?case by blast
qed

lemma assign_loop_keeps:
  assumes "t < length h" and "kind (h ! t) = PlainObject" and "assign_loop h tg c t ks = (r, h')"
  shows "kind (h' ! r) = PlainObject
       \<and> (\<forall>q. proto_prop h' (h' ! r) q = proto_prop h (h ! t) q)
       \<and> (\<forall>q. q \<notin> set ks \<longrightarrow> get_prop h' (h' ! r) q = get_prop h (h ! t) q
                \<and> hasOwnProperty (h' ! r) q = hasOwnProperty (h ! t) q)"
  using assms
proof (induction ks arbitrary: h t)
  case Nil
  then show ?case by simp
next
  case (Cons k ks)
  obtain t1 h1 where st: "set_js h t k (get_prop h (h ! c) k) = (t1, h1)"
    by (cases "set_js h t k (get_prop h (h ! c) k)")
  have rest: "assign_loop h1 tg c t1 ks = (r, h')"
    using Cons.prems(3) st by (simp add: set_js_surplus_def)
  have t1: "t1 < length h1" using set_js_step [OF Cons.prems(1) st] by blast
  note pl = set_js_plain [OF Cons.prems(1,2) st]
  have k1: "kind (h1 ! t1) = PlainObject" using pl by blast
  note ih = Cons.IH [OF t1 k1 rest]
  have "kind (h' ! r) = PlainObject" using ih by blast
  moreover have "proto_prop h' (h' ! r) q = proto_prop h (h ! t) q" for q
    using ih set_js_plain [OF Cons.prems(1,2) st, of q] by simp
  moreover have "get_prop h' (h' ! r) q = get_prop h (h ! t) q
       \<and> hasOwnProperty (h' ! r) q = hasOwnProperty (h ! t) q" if "q \<notin> set (k # ks)" for q
    using ih set_js_keeps [OF Cons.prems(1,2) st, of q] that by simp
  ultimately show ?case by blast
qed

lemma assign_loop_post:
  assumes "t < length h" and "c < length h" and "kind (h ! t) = PlainObject" and "distinct ks"
    and "\<forall>k \<in> set ks. hasOwnProperty (h ! c) k"
    and "\<forall>k \<in> set ks. own_prop (h ! c) k \<noteq> JNaN
           \<and> (own_prop (h ! c) k = JUndefined \<longrightarrow> proto_prop h (h ! t) k = JUndefined)"
    and "assign_loop h tg c t ks = (r, h')"
  shows "\<forall>k \<in> set ks. strict_eq (get_prop h' (h' ! r) k) (own_prop (h ! c) k)
           \<and> \<not> (own_prop (h ! c) k = JUndefined \<and> hasOwnProperty (h' ! r) k)"
  using assms
proof (induction ks arbitrary: h t)
  case Nil
  then show ?case by simp
next
  case (Cons k ks)
  have vk: "get_prop h (h ! c) k = own_prop (h ! c) k"
    using Cons.prems(5) by (simp add: get_prop_own_key)
  obtain t1 h1 where st: "set_js h t k (own_prop (h ! c) k) = (t1, h1)"
    by (cases "set_js h t k (own_prop (h ! c) k)")
  have rest: "assign_loop h1 tg c t1 ks = (r, h')"
    using Cons.prems(7) st by (simp add: set_js_surplus_def vk)
  note step = set_js_step [OF Cons.prems(1) st]
  from step have t1: "t1 < length h1" by blast
  from step obtain n1 where n1: "h1 = h @ n1" by blast
  have c1: "c < length h1" using Cons.prems(2) n1 by simp
  have same_c: "h1 ! c = h ! c" using Cons.prems(2) n1 by (simp add: nth_append)
  note pl = set_js_plain [OF Cons.prems(1,3) st]
  have k1: "kind (h1 ! t1) = PlainObject" using pl by blast
  have dist: "distinct ks" and knew: "k \<notin> set ks" using Cons.prems(4) by simp_all
  have own1: "\<forall>k \<in> set ks. hasOwnProperty (h1 ! c) k" using Cons.prems(5) same_c by simp
  have ok1: "\<forall>k \<in> set ks. own_prop (h1 ! c) k \<noteq> JNaN
           \<and> (own_prop (h1 ! c) k = JUndefined \<longrightarrow> proto_prop h1 (h1 ! t1) k = JUndefined)"
  proof
    fix q assume q: "q \<in> set ks"
    have "proto_prop h1 (h1 ! t1) q = proto_prop h (h ! t) q"
      using set_js_plain [OF Cons.prems(1,3) st, of q] by blast
    then show "own_prop (h1 ! c) q \<noteq> JNaN
           \<and> (own_prop (h1 ! c) q = JUndefined \<longrightarrow> proto_prop h1 (h1 ! t1) q = JUndefined)"
      using Cons.prems(6) q same_c by simp
  qed
  note ih = Cons.IH [OF t1 c1 k1 dist own1 ok1 rest, unfolded same_c]
  have now: "strict_eq (get_prop h1 (h1 ! t1) k) (own_prop (h ! c) k)
       \<and> \<not> (own_prop (h ! c) k = JUndefined \<and> hasOwnProperty (h1 ! t1) k)"
    using set_js_settles [OF Cons.prems(1,3) _ _ st] Cons.prems(6) by simp
  have keep: "get_prop h' (h' ! r) k = get_prop h1 (h1 ! t1) k
       \<and> hasOwnProperty (h' ! r) k = hasOwnProperty (h1 ! t1) k"
    using assign_loop_keeps [OF t1 k1 rest] knew by blast
  have here: "strict_eq (get_prop h' (h' ! r) k) (own_prop (h ! c) k)
       \<and> \<not> (own_prop (h ! c) k = JUndefined \<and> hasOwnProperty (h' ! r) k)"
    using now keep by simp
  show ?case using here ih by simp
qed

section \<open>Facts about the deep comparison and the accessor\<close>

lemma isEqual_prim: "\<not> (\<exists>x y. a = JRef x \<and> b = JRef y) \<Longrightarrow> isEqual h seen a b = (a = b)"
  by (subst isEqual.simps) (auto split: jsval.splits)

lemma isEqual_ref:
  "isEqual h seen (JRef x) (JRef y) =
     (if x = y then True
      else if \<not> (x < length h \<and> y < length h) then False
      else if kind (h ! x) = FunctionObject \<or> kind (h ! y) = FunctionObject then False
      else if (x, y) \<in> set seen then True
      else kind (h ! x) = kind (h ! y)
         \<and> set (own_keys (h ! x)) = set (own_keys (h ! y))
         \<and> list_all (\<lambda>k. isEqual h ((x, y) # seen) (own_prop (h ! x) k) (own_prop (h ! y) k))
              (own_keys (h ! x)))"
  by (subst isEqual.simps) simp

lemma isEqual_refl: "isEqual h seen a a"
  by (subst isEqual.simps) (simp split: jsval.splits)

lemma isEqual_sym: "isEqual h seen a b = isEqual h (map prod.swap seen) b a"
proof (induction h seen a b rule: isEqual.induct)
  case (1 h seen a b)
  show ?case
  proof (cases "\<exists>x y. a = JRef x \<and> b = JRef y")
    case False
    then have "\<not> (\<exists>x y. b = JRef x \<and> a = JRef y)" by blast
    with False show ?thesis by (auto simp: isEqual_prim)
  next
    case True
    then obtain x y where ab: "a = JRef x" "b = JRef y" by blast
    have sw: "((y, x) \<in> set (map prod.swap seen)) = ((x, y) \<in> set seen)" by force
    show ?thesis
    proof (cases "x \<noteq> y \<and> x < length h \<and> y < length h \<and> kind (h ! x) \<noteq> FunctionObject
         \<and> kind (h ! y) \<noteq> FunctionObject \<and> (x, y) \<notin> set seen")
      case False
      then show ?thesis unfolding ab isEqual_ref sw by auto
    next
      case c: True
      have IH: "isEqual h ((x, y) # seen) (own_prop (h ! x) k) (own_prop (h ! y) k)
         = isEqual h ((y, x) # map prod.swap seen) (own_prop (h ! y) k) (own_prop (h ! x) k)"
        if "k \<in> set (own_keys (h ! x))" for k
        using "1.IH" [OF ab(1) ab(2), of k] c that by simp
      show ?thesis unfolding ab isEqual_ref sw list_all_iff
        using c IH by auto
    qed
  qed
qed

text \<open>Values of different \<^verbatim>\<open>typeof\<close> are never equal.\<close>

lemma isEqual_typeof: "typeof h a \<noteq> typeof h b \<Longrightarrow> \<not> isEqual h seen a b"
proof (cases "\<exists>x y. a = JRef x \<and> b = JRef y")
  case False
  assume "typeof h a \<noteq> typeof h b"
  then have "a \<noteq> b" by auto
  then show ?thesis using False by (simp add: isEqual_prim)
next
  case True
  assume t: "typeof h a \<noteq> typeof h b"
  from True obtain x y where ab: "a = JRef x" "b = JRef y" by blast
  have "x \<noteq> y" using t ab by auto
  moreover have "kind (h ! x) = FunctionObject \<or> kind (h ! y) = FunctionObject"
    using t ab by (auto simp: typeof_def split: if_splits)
  ultimately show ?thesis unfolding ab isEqual_ref by simp
qed

text \<open>
  The comparison against structural equivalence. A larger set of pairs relates more
  values.
\<close>

lemma related_mono: "related R a b \<Longrightarrow> R \<subseteq> S \<Longrightarrow> related S a b"
  by (auto simp: related_def split: jsval.splits)

lemma alike_mono: "alike h R x y \<Longrightarrow> R \<subseteq> S \<Longrightarrow> alike h S x y"
  by (auto simp: alike_def list_all_iff intro: related_mono)

lemma related_cases:
  "related R a b = (a = b \<or> (\<exists>x y. a = JRef x \<and> b = JRef y \<and> (x, y) \<in> R))"
  by (auto simp: related_def split: jsval.splits)

text \<open>Values that a correspondence relates compare equal, whatever pairs are under way.\<close>

lemma correspondence_isEqual:
  "correspondence h R \<Longrightarrow> related R a b \<Longrightarrow> isEqual h seen a b"
proof (induction h seen a b rule: isEqual.induct)
  case (1 h seen a b)
  show ?case
  proof (cases "a = b")
    case True
    then show ?thesis by (simp add: isEqual_refl)
  next
    case False
    then obtain x y where ab: "a = JRef x" "b = JRef y" and xy: "(x, y) \<in> R"
      using "1.prems"(2) by (auto simp: related_cases)
    have al: "alike h R x y" using "1.prems"(1) xy by (auto simp: correspondence_def)
    have ne: "x \<noteq> y" using False ab by simp
    have live: "x < length h" "y < length h"
      and kinds: "kind (h ! x) = kind (h ! y)" "kind (h ! x) \<noteq> FunctionObject"
        "kind (h ! y) \<noteq> FunctionObject"
      and keys: "set (own_keys (h ! x)) = set (own_keys (h ! y))"
      and vals: "\<forall>k \<in> set (own_keys (h ! x)). related R (own_prop (h ! x) k) (own_prop (h ! y) k)"
      using al by (auto simp: alike_def list_all_iff)
    show ?thesis
    proof (cases "(x, y) \<in> set seen")
      case True
      then show ?thesis unfolding ab isEqual_ref using live kinds by simp
    next
      case False
      have kids: "isEqual h ((x, y) # seen) (own_prop (h ! x) k) (own_prop (h ! y) k)"
        if k: "k \<in> set (own_keys (h ! x))" for k
      proof -
        have "related R (own_prop (h ! x) k) (own_prop (h ! y) k)" using vals k by blast
        then show ?thesis
          using "1.IH" [OF ab(1) ab(2), of k] ne live kinds False k "1.prems"(1) by simp
      qed
      show ?thesis unfolding ab isEqual_ref using live kinds keys ne False kids
        by (simp add: list_all_iff)
    qed
  qed
qed

text \<open>
  Values that compare equal are related by a set of pairs whose members are alike, once
  the pairs under way are granted.
\<close>

lemma isEqual_correspondence:
  "isEqual h seen a b \<Longrightarrow>
   \<exists>R. related (R \<union> set seen) a b \<and> (\<forall>(x, y) \<in> R. alike h (R \<union> set seen) x y)"
proof (induction h seen a b rule: isEqual.induct)
  case (1 h seen a b)
  show ?case
  proof (cases "a = b \<or> (\<exists>x y. a = JRef x \<and> b = JRef y \<and> (x, y) \<in> set seen)")
    case True
    then have "related ({} \<union> set seen) a b" by (auto simp: related_cases)
    then show ?thesis by blast
  next
    case False
    have both: "\<exists>x y. a = JRef x \<and> b = JRef y"
    proof (rule ccontr)
      assume "\<not> (\<exists>x y. a = JRef x \<and> b = JRef y)"
      then have "a = b" using "1.prems" by (simp add: isEqual_prim)
      then show False using False by simp
    qed
    then obtain x y where ab: "a = JRef x" "b = JRef y" by blast
    have ne: "x \<noteq> y" and ns: "(x, y) \<notin> set seen" using False ab by auto
    have run: "x < length h \<and> y < length h
        \<and> \<not> (kind (h ! x) = FunctionObject \<or> kind (h ! y) = FunctionObject)
        \<and> kind (h ! x) = kind (h ! y)
        \<and> set (own_keys (h ! x)) = set (own_keys (h ! y))
        \<and> (\<forall>k \<in> set (own_keys (h ! x)).
              isEqual h ((x, y) # seen) (own_prop (h ! x) k) (own_prop (h ! y) k))"
      using "1.prems" ne ns unfolding ab isEqual_ref
      by (auto simp: list_all_iff split: if_splits)
    let ?seen' = "insert (x, y) (set seen)"
    have "\<forall>k \<in> set (own_keys (h ! x)). \<exists>Rk.
            related (Rk \<union> ?seen') (own_prop (h ! x) k) (own_prop (h ! y) k)
          \<and> (\<forall>(u, v) \<in> Rk. alike h (Rk \<union> ?seen') u v)"
    proof
      fix k assume k: "k \<in> set (own_keys (h ! x))"
      show "\<exists>Rk. related (Rk \<union> ?seen') (own_prop (h ! x) k) (own_prop (h ! y) k)
          \<and> (\<forall>(u, v) \<in> Rk. alike h (Rk \<union> ?seen') u v)"
        using "1.IH" [OF ab(1) ab(2), of k] ne ns run k by simp
    qed
    then obtain f where f: "\<forall>k \<in> set (own_keys (h ! x)).
            related (f k \<union> ?seen') (own_prop (h ! x) k) (own_prop (h ! y) k)
          \<and> (\<forall>(u, v) \<in> f k. alike h (f k \<union> ?seen') u v)"
      by (auto simp: bchoice_iff)
    define R where "R = insert (x, y) (\<Union>k \<in> set (own_keys (h ! x)). f k)"
    have sub: "f k \<union> ?seen' \<subseteq> R \<union> set seen" if "k \<in> set (own_keys (h ! x))" for k
      using that by (auto simp: R_def)
    have kids: "related (R \<union> set seen) (own_prop (h ! x) k) (own_prop (h ! y) k)"
      if k: "k \<in> set (own_keys (h ! x))" for k
    proof -
      have "related (f k \<union> ?seen') (own_prop (h ! x) k) (own_prop (h ! y) k)" using f k by blast
      then show ?thesis using sub [OF k] by (rule related_mono)
    qed
    have top: "alike h (R \<union> set seen) x y"
      unfolding alike_def list_all_iff using run kids by auto
    have rest: "alike h (R \<union> set seen) u v"
      if "k \<in> set (own_keys (h ! x))" "(u, v) \<in> f k" for k u v
    proof -
      have "alike h (f k \<union> ?seen') u v" using f that by blast
      then show ?thesis using sub [OF that(1)] by (rule alike_mono)
    qed
    have "\<forall>(u, v) \<in> R. alike h (R \<union> set seen) u v"
      using top rest by (auto simp: R_def)
    moreover have "related (R \<union> set seen) a b"
      unfolding ab by (simp add: related_def R_def)
    ultimately show ?thesis by blast
  qed
qed

lemma typeof_function: "typeof h v = ''function'' \<Longrightarrow> \<exists>f. v = JRef f"
  by (cases v) (simp_all add: typeof_def)

text \<open>
  The definitions a concrete call unfolds to.
\<close>

lemmas ev = set_js_def set_js_surplus_def set_internal_def write_branch_def typeof_def hasOwnProperty_def
  get_prop_def proto_prop_def object_prototype_def own_prop_def
  put_prop_def delete_property_def spread_def alloc_def strict_eq_def assign_def own_keys_def
  state_object_def

section \<open>The claims\<close>

text \<open>
  C1, as the code has it. The claim reads: when every key of the change set \<open>c\<close> maps to
  a value deep-equal to the current value of \<open>s\<close> for that key (or is absent from \<open>s\<close> and
  mapped to \<^verbatim>\<open>undefined\<close>), \<^verbatim>\<open>assign(s, c)\<close> returns \<open>s\<close> itself and allocates nothing.
  The code compares with \<^verbatim>\<open>!==\<close> and deletes an own property that is set to \<^verbatim>\<open>undefined\<close>,
  so the statement that holds is: when every key of \<open>c\<close> maps to a value identical
  (\<^verbatim>\<open>===\<close>) to what \<^verbatim>\<open>s[key]\<close> reads, and no key mapped to \<^verbatim>\<open>undefined\<close> is an own property
  of \<open>s\<close>, \<^verbatim>\<open>assign(s, c)\<close> returns \<open>s\<close> itself and leaves the store as it is.
\<close>

theorem assign_identity_preserved:
  assumes "state_object h s" and "state_object h c"
    and "\<forall>k \<in> set (own_keys (h ! c)).
           strict_eq (get_prop h (h ! s) k) (get_prop h (h ! c) k)
         \<and> \<not> (get_prop h (h ! c) k = JUndefined \<and> hasOwnProperty (h ! s) k)"
  shows "assign h s c = (s, h)"
  unfolding assign_def using assms(3) by (rule assign_loop_noop)

text \<open>
  The state \<^verbatim>\<open>{a: 1, b: 2, c: 3}\<close> and the change set \<^verbatim>\<open>{a: 1, c: 3}\<close>. The state
  \<^verbatim>\<open>{b: 2}\<close> with the change set \<^verbatim>\<open>{toString: undefined}\<close> is not within the hypothesis:
  \<^verbatim>\<open>s['toString']\<close> reads the inherited function, which is not \<^verbatim>\<open>undefined\<close>.
\<close>

theorem assign_identity_preserved_witness:
  "state_object heap_batch 0 \<and> state_object heap_batch 3
   \<and> list_all (\<lambda>k. strict_eq (get_prop heap_batch (heap_batch ! 0) k) (get_prop heap_batch (heap_batch ! 3) k)
                  \<and> \<not> (get_prop heap_batch (heap_batch ! 3) k = JUndefined \<and> hasOwnProperty (heap_batch ! 0) k))
        (own_keys (heap_batch ! 3))
   \<and> assign heap_batch 0 3 = (0, heap_batch)
   \<and> get_prop heap_realm (heap_realm ! 12) ''toString'' = JRef 9
   \<and> get_prop heap_realm (heap_realm ! 13) ''toString'' = JUndefined
   \<and> \<not> strict_eq (get_prop heap_realm (heap_realm ! 12) ''toString'')
          (get_prop heap_realm (heap_realm ! 13) ''toString'')"
  using assign_identity_preserved [of heap_batch 0 3]
  by (simp add: heap_batch_def heap_realm_def state_object_def own_keys_def strict_eq_def get_prop_def
      proto_prop_def object_prototype_def own_prop_def hasOwnProperty_def)

text \<open>
  C1 as stated fails in three ways. A nested value that is deep-equal but another object
  (\<^verbatim>\<open>{a: [1, {b: 2}]}\<close> twice), an own property that holds \<^verbatim>\<open>undefined\<close> and is set to
  \<^verbatim>\<open>undefined\<close>, and a property that holds \<^verbatim>\<open>NaN\<close> and is set to \<^verbatim>\<open>NaN\<close>: in each the
  values are deep-equal and \<^verbatim>\<open>assign\<close> returns another object than the state.
\<close>

theorem assign_deep_equal_counterexample:
  "state_object heap_deep 0 \<and> state_object heap_deep 3
   \<and> list_all (\<lambda>k. equals heap_deep (get_prop heap_deep (heap_deep ! 3) k) (get_prop heap_deep (heap_deep ! 0) k))
        (own_keys (heap_deep ! 3))
   \<and> fst (assign heap_deep 0 3) \<noteq> 0
   \<and> state_object heap_undef 0 \<and> state_object heap_undef 1
   \<and> list_all (\<lambda>k. equals heap_undef (get_prop heap_undef (heap_undef ! 1) k) (get_prop heap_undef (heap_undef ! 0) k))
        (own_keys (heap_undef ! 1))
   \<and> fst (assign heap_undef 0 1) \<noteq> 0
   \<and> state_object heap_nan 0 \<and> state_object heap_nan 1
   \<and> list_all (\<lambda>k. equals heap_nan (get_prop heap_nan (heap_nan ! 1) k) (get_prop heap_nan (heap_nan ! 0) k))
        (own_keys (heap_nan ! 1))
   \<and> fst (assign heap_nan 0 1) \<noteq> 0"
  by (simp add: ev equals_def isEqual_ref isEqual_prim heap_deep_def heap_undef_def heap_nan_def)

text \<open>
  C2 reads: one call of \<^verbatim>\<open>assign\<close> allocates at most one new state object, however many
  properties change. Line 22 calls the exported \<^verbatim>\<open>set\<close>, which ignores the flag
  \<^verbatim>\<open>t === target\<close> and always copies. With the state \<^verbatim>\<open>{a: 1, b: 2, c: 3}\<close> and the change
  set \<^verbatim>\<open>{a: 10, b: 20, c: 3}\<close> two properties differ and the call allocates two objects:
  the intermediate \<^verbatim>\<open>{a: 10, b: 2, c: 3}\<close> and the result.
\<close>

theorem assign_allocates_per_change:
  "assign heap_batch 0 2 = (5, heap_batch @
       [\<lparr>kind = PlainObject, props = [(''a'', JNum 10), (''b'', JNum 2), (''c'', JNum 3)]\<rparr>,
        \<lparr>kind = PlainObject, props = [(''a'', JNum 10), (''b'', JNum 20), (''c'', JNum 3)]\<rparr>])
   \<and> length (snd (assign heap_batch 0 2)) = length heap_batch + 2"
  by (simp add: ev heap_batch_def)

text \<open>
  C3: when \<open>s\<close> has an own property \<open>p\<close>, \<^verbatim>\<open>set(s, p, undefined)\<close> returns a new object,
  another reference than \<open>s\<close>, in which \<open>p\<close> is absent as a key and every other property is
  as in \<open>s\<close>; \<open>s\<close> itself still has \<open>p\<close>.
\<close>

theorem set_deletes_own_property:
  assumes "state_object h s" and "hasOwnProperty (h ! s) p"
  shows "case set_js h s p JUndefined of (r, h') \<Rightarrow>
           r \<noteq> s \<and> r = length h \<and> length h' = Suc (length h)
         \<and> \<not> hasOwnProperty (h' ! r) p
         \<and> (\<forall>q. q \<noteq> p \<longrightarrow> map_of (props (h' ! r)) q = map_of (props (h ! s)) q)
         \<and> hasOwnProperty (h' ! s) p \<and> h' ! s = h ! s"
proof -
  have live: "s < length h" using assms(1) by (simp add: state_object_def)
  show ?thesis
    using live assms(2)
    by (simp add: set_js_delete [OF assms(2)] nth_append hasOwnProperty_def delete_conv')
qed

text \<open>
  \<^verbatim>\<open>set({a: 1, b: 2}, 'a', undefined)\<close> is a new \<^verbatim>\<open>{b: 2}\<close>.
\<close>

theorem set_deletes_own_property_witness:
  "state_object heap_ab 0 \<and> hasOwnProperty (heap_ab ! 0) ''a''
   \<and> set_js heap_ab 0 ''a'' JUndefined
       = (2, heap_ab @ [\<lparr>kind = PlainObject, props = [(''b'', JNum 2)]\<rparr>])
   \<and> hasOwnProperty (snd (set_js heap_ab 0 ''a'' JUndefined) ! 0) ''a''"
  using set_deletes_own_property [where h = heap_ab and s = 0 and p = "''a''"]
  by (simp add: ev heap_ab_def)

text \<open>
  C4: neither \<^verbatim>\<open>set\<close> nor \<^verbatim>\<open>assign\<close> modifies \<open>s\<close>. After the call the cell of \<open>s\<close>, and
  every cell that existed, is what it was, and the result is a shallow copy: every
  property not named in the call has in the result the presence and the value it has in
  \<open>s\<close>.
\<close>

theorem set_assign_frame:
  assumes "state_object h s" and "state_object h c"
  shows "(case set_js h s p v of (r, h') \<Rightarrow>
            h' ! s = h ! s \<and> take (length h) h' = h
          \<and> (\<forall>q. q \<noteq> p \<longrightarrow> map_of (props (h' ! r)) q = map_of (props (h ! s)) q))
       \<and> (case assign h s c of (r, h') \<Rightarrow>
            h' ! s = h ! s \<and> take (length h) h' = h
          \<and> (\<forall>q. q \<notin> set (own_keys (h ! c)) \<longrightarrow> map_of (props (h' ! r)) q = map_of (props (h ! s)) q))"
proof -
  have live: "s < length h" using assms(1) by (simp add: state_object_def)
  obtain r1 h1 where a: "set_js h s p v = (r1, h1)" by (cases "set_js h s p v")
  obtain r2 h2 where b: "assign h s c = (r2, h2)" by (cases "assign h s c")
  from set_js_step [OF live a] obtain n1 where n1: "h1 = h @ n1"
    and k1: "\<forall>q. q \<noteq> p \<longrightarrow> map_of (props (h1 ! r1)) q = map_of (props (h ! s)) q" by blast
  from assign_loop_frame [OF live b [unfolded assign_def]] obtain n2 where n2: "h2 = h @ n2"
    and k2: "\<forall>q. q \<notin> set (own_keys (h ! c)) \<longrightarrow> map_of (props (h2 ! r2)) q = map_of (props (h ! s)) q"
    by blast
  show ?thesis unfolding a b using live n1 k1 n2 k2 by (simp add: nth_append)
qed

text \<open>
  The state \<^verbatim>\<open>{a: 1, b: 2, c: 3}\<close> with the change set \<^verbatim>\<open>{a: 1, b: 99, c: 3}\<close>: one new
  object \<^verbatim>\<open>{a: 1, b: 99, c: 3}\<close>, and the state untouched.
\<close>

theorem set_assign_frame_witness:
  "state_object heap_batch 0 \<and> state_object heap_batch 1
   \<and> snd (set_js heap_batch 0 ''b'' (JNum 99)) ! 0 = heap_batch ! 0
   \<and> map_of (props (snd (set_js heap_batch 0 ''b'' (JNum 99)) ! fst (set_js heap_batch 0 ''b'' (JNum 99)))) ''a''
       = map_of (props (heap_batch ! 0)) ''a''
   \<and> fst (assign heap_batch 0 1) = 4
   \<and> snd (assign heap_batch 0 1) ! 0 = heap_batch ! 0
   \<and> take (length heap_batch) (snd (assign heap_batch 0 1)) = heap_batch
   \<and> props (snd (assign heap_batch 0 1) ! 4) = [(''a'', JNum 1), (''b'', JNum 99), (''c'', JNum 3)]"
  using set_assign_frame [of heap_batch 0 1 "''b''" "JNum 99"]
  by (simp add: ev heap_batch_def)

text \<open>
  C5: for a value \<open>v\<close> other than \<^verbatim>\<open>undefined\<close>, \<^verbatim>\<open>set(s, p, v)\<close> returns \<open>s\<close> itself when
  the current value of \<open>p\<close> in \<open>s\<close>, what \<^verbatim>\<open>s[p]\<close> reads, is identical (\<^verbatim>\<open>===\<close>) to \<open>v\<close>;
  otherwise it returns a shallow copy of \<open>s\<close>, a new plain object, whose value for \<open>p\<close> is
  \<open>v\<close>.
\<close>

theorem set_identity_or_clone:
  assumes "state_object h s" and "v \<noteq> JUndefined"
  shows "(strict_eq (get_prop h (h ! s) p) v \<longrightarrow> set_js h s p v = (s, h))
       \<and> (\<not> strict_eq (get_prop h (h ! s) p) v \<longrightarrow>
            (case set_js h s p v of (r, h') \<Rightarrow>
               r \<noteq> s \<and> r = length h \<and> length h' = Suc (length h)
             \<and> kind (h' ! r) = PlainObject
             \<and> map_of (props (h' ! r)) p = Some v \<and> get_prop h' (h' ! r) p = v
             \<and> (\<forall>q. q \<noteq> p \<longrightarrow> map_of (props (h' ! r)) q = map_of (props (h ! s)) q)
             \<and> h' ! s = h ! s))"
proof -
  have live: "s < length h" using assms(1) by (simp add: state_object_def)
  show ?thesis
    using live assms(2)
    by (auto simp: set_js_same set_js_write nth_append get_prop_def update_conv')
qed

text \<open>
  The state \<^verbatim>\<open>{a: 1, b: 2}\<close>; and the state \<^verbatim>\<open>{b: 2}\<close> set to the \<^verbatim>\<open>toString\<close> it
  inherits, which leaves it as it is.
\<close>

theorem set_identity_or_clone_witness:
  "state_object heap_ab 0
   \<and> set_js heap_ab 0 ''a'' (JNum 1) = (0, heap_ab)
   \<and> set_js heap_ab 0 ''a'' (JNum 5)
       = (2, heap_ab @ [\<lparr>kind = PlainObject, props = [(''a'', JNum 5), (''b'', JNum 2)]\<rparr>])
   \<and> set_js heap_ab 0 ''c'' JNull
       = (2, heap_ab @ [\<lparr>kind = PlainObject, props = [(''a'', JNum 1), (''b'', JNum 2), (''c'', JNull)]\<rparr>])
   \<and> state_object heap_realm 12
   \<and> get_prop heap_realm (heap_realm ! 12) ''toString'' = JRef 9
   \<and> set_js heap_realm 12 ''toString'' (JRef 9) = (12, heap_realm)
   \<and> set_js heap_realm 12 ''toString'' (JNum 5)
       = (14, heap_realm @ [\<lparr>kind = PlainObject, props = [(''b'', JNum 2), (''toString'', JNum 5)]\<rparr>])"
  using set_identity_or_clone [where h = heap_ab and s = 0 and p = "''a''" and v = "JNum 1"]
    set_identity_or_clone [where h = heap_ab and s = 0 and p = "''a''" and v = "JNum 5"]
    set_identity_or_clone [where h = heap_realm and s = 12 and p = "''toString''" and v = "JRef 9"]
  by (simp add: ev heap_ab_def heap_realm_def)

text \<open>
  C6, as the code has it. The claim reads: when \<open>s\<close> has no own property \<open>p\<close>,
  \<^verbatim>\<open>set(s, p, undefined)\<close> returns \<open>s\<close> itself. Line 98 reads \<^verbatim>\<open>s[p]\<close> through the
  prototype chain, so the statement that holds is: when \<open>s\<close> has no own property \<open>p\<close> and
  \<^verbatim>\<open>s[p]\<close> reads \<^verbatim>\<open>undefined\<close> (\<open>s\<close> inherits no member of that name),
  \<^verbatim>\<open>set(s, p, undefined)\<close> returns \<open>s\<close> itself and allocates nothing.
\<close>

theorem set_absent_undefined_noop:
  assumes "state_object h s" and "\<not> hasOwnProperty (h ! s) p"
    and "get_prop h (h ! s) p = JUndefined"
  shows "set_js h s p JUndefined = (s, h)"
  using assms(2,3) by (simp add: set_js_same strict_eq_def)

text \<open>
  \<^verbatim>\<open>set({b: 2}, 'a', undefined)\<close> is the state itself, in a store without and in a store
  with \<^verbatim>\<open>Object.prototype\<close>.
\<close>

theorem set_absent_undefined_noop_witness:
  "state_object heap_ab 1 \<and> \<not> hasOwnProperty (heap_ab ! 1) ''a''
   \<and> get_prop heap_ab (heap_ab ! 1) ''a'' = JUndefined
   \<and> set_js heap_ab 1 ''a'' JUndefined = (1, heap_ab)
   \<and> state_object heap_realm 12 \<and> \<not> hasOwnProperty (heap_realm ! 12) ''a''
   \<and> get_prop heap_realm (heap_realm ! 12) ''a'' = JUndefined
   \<and> set_js heap_realm 12 ''a'' JUndefined = (12, heap_realm)"
  using set_absent_undefined_noop [where h = heap_ab and s = 1 and p = "''a''"]
    set_absent_undefined_noop [where h = heap_realm and s = 12 and p = "''a''"]
  by (simp add: state_object_def own_keys_def hasOwnProperty_def get_prop_def proto_prop_def
      object_prototype_def own_prop_def heap_ab_def heap_realm_def)

text \<open>
  C6 as stated fails for a name the state inherits: \<^verbatim>\<open>{b: 2}\<close> has no own \<^verbatim>\<open>toString\<close>,
  \<^verbatim>\<open>s['toString']\<close> is the inherited function and not \<^verbatim>\<open>undefined\<close>, and
  \<^verbatim>\<open>set(s, 'toString', undefined)\<close> returns a new \<^verbatim>\<open>{b: 2, toString: undefined}\<close>.
\<close>

theorem set_inherited_undefined_counterexample:
  "state_object heap_realm 12 \<and> \<not> hasOwnProperty (heap_realm ! 12) ''toString''
   \<and> set_js heap_realm 12 ''toString'' JUndefined
       = (14, heap_realm @ [\<lparr>kind = PlainObject, props = [(''b'', JNum 2), (''toString'', JUndefined)]\<rparr>])"
  by (simp add: ev heap_realm_def)

text \<open>
  C7: \<^verbatim>\<open>toState(stateful)\<close> is the result of calling \<open>stateful\<close> when it is a function;
  else the result of calling its \<^verbatim>\<open>getState\<close> when it is an object whose \<^verbatim>\<open>getState\<close> and
  \<^verbatim>\<open>dispatch\<close> are both functions; in every other case \<open>stateful\<close> itself, with the store
  unchanged.
\<close>

theorem toState_cases:
  "(typeof h v = ''function'' \<longrightarrow> (\<exists>f. v = JRef f \<and> toState call h v = call f h))
   \<and> (typeof h v \<noteq> ''function'' \<and> (\<exists>a. v = JRef a)
        \<and> typeof h (read_member h v ''getState'') = ''function''
        \<and> typeof h (read_member h v ''dispatch'') = ''function''
      \<longrightarrow> (\<exists>g. read_member h v ''getState'' = JRef g \<and> toState call h v = call g h))
   \<and> (typeof h v \<noteq> ''function''
        \<and> \<not> ((\<exists>a. v = JRef a)
              \<and> typeof h (read_member h v ''getState'') = ''function''
              \<and> typeof h (read_member h v ''dispatch'') = ''function'')
      \<longrightarrow> toState call h v = Inr (v, h))"
proof (intro conjI impI)
  assume f: "typeof h v = ''function''"
  then obtain a where a: "v = JRef a" using typeof_function by blast
  then show "\<exists>f. v = JRef f \<and> toState call h v = call f h"
    using f by (simp add: toState_def truthy_def)
next
  assume "typeof h v \<noteq> ''function'' \<and> (\<exists>a. v = JRef a)
        \<and> typeof h (read_member h v ''getState'') = ''function''
        \<and> typeof h (read_member h v ''dispatch'') = ''function''"
  then obtain a where nf: "typeof h v \<noteq> ''function''" and a: "v = JRef a"
    and g: "typeof h (read_member h v ''getState'') = ''function''"
    and d: "typeof h (read_member h v ''dispatch'') = ''function''" by blast
  from g obtain gs where gs: "read_member h v ''getState'' = JRef gs" using typeof_function by blast
  have "toState call h v = call gs h"
    using nf g d gs unfolding a by (simp add: toState_def truthy_def Let_def)
  then show "\<exists>g. read_member h v ''getState'' = JRef g \<and> toState call h v = call g h"
    using gs by blast
next
  assume o: "typeof h v \<noteq> ''function''
        \<and> \<not> ((\<exists>a. v = JRef a)
              \<and> typeof h (read_member h v ''getState'') = ''function''
              \<and> typeof h (read_member h v ''dispatch'') = ''function'')"
  show "toState call h v = Inr (v, h)"
  proof (cases "\<exists>a. v = JRef a")
    case True
    then show ?thesis using o by (auto simp: toState_def Let_def)
  next
    case False
    then have "read_member h v ''getState'' = JUndefined"
      by (cases v) (simp_all add: read_member_def)
    then show ?thesis using o by (simp add: toState_def Let_def typeof_def)
  qed
qed

text \<open>
  A function, a store, a plain object, \<^verbatim>\<open>null\<close> and a string.
\<close>

theorem toState_cases_witness:
  "toState call_example heap_store (JRef 0) = Inr (JRef 3, heap_store)
   \<and> toState call_example heap_store (JRef 5) = Inr (JRef 4, heap_store)
   \<and> toState call_example heap_store (JRef 3) = Inr (JRef 3, heap_store)
   \<and> toState call_example heap_store JNull = Inr (JNull, heap_store)
   \<and> toState call_example heap_store (JStr ''abc'') = Inr (JStr ''abc'', heap_store)"
  using toState_cases [where h = heap_store and v = "JRef 0" and call = call_example]
    toState_cases [where h = heap_store and v = "JRef 5" and call = call_example]
    toState_cases [where h = heap_store and v = "JRef 3" and call = call_example]
    toState_cases [where h = heap_store and v = JNull and call = call_example]
    toState_cases [where h = heap_store and v = "JStr ''abc''" and call = call_example]
  by (simp add: typeof_def read_member_def get_prop_def proto_prop_def object_prototype_def
      own_prop_def heap_store_def call_example_def)

text \<open>
  C8: \<^verbatim>\<open>equals\<close> is reflexive and symmetric, and it decides structural equivalence: it
  holds of two values exactly when some correspondence relates them, and never of two
  values of different \<^verbatim>\<open>typeof\<close>. It holds of the two separately built copies of
  \<^verbatim>\<open>{a: [1, {b: 2}]}\<close>, and it fails for \<^verbatim>\<open>{a: 1}\<close> and \<^verbatim>\<open>{a: '1'}\<close>.
\<close>

theorem equals_reflexive_symmetric:
  "equals h a a
   \<and> equals h a b = equals h b a
   \<and> equals h a b = structurally_equivalent h a b
   \<and> (typeof h a \<noteq> typeof h b \<longrightarrow> \<not> equals h a b)
   \<and> equals heap_deep (JRef 0) (JRef 3)
   \<and> \<not> equals heap_deep (JRef 6) (JRef 7)"
proof -
  have "equals h a a" by (simp add: equals_def isEqual_refl)
  moreover have "equals h a b = equals h b a"
    using isEqual_sym [of h "[]" a b] by (simp add: equals_def)
  moreover have "equals h a b = structurally_equivalent h a b"
  proof
    assume "equals h a b"
    then have "isEqual h [] a b" by (simp add: equals_def)
    from isEqual_correspondence [OF this] show "structurally_equivalent h a b"
      by (auto simp: structurally_equivalent_def correspondence_def)
  next
    assume "structurally_equivalent h a b"
    then obtain R where "correspondence h R" "related R a b"
      by (auto simp: structurally_equivalent_def)
    then show "equals h a b" unfolding equals_def by (rule correspondence_isEqual)
  qed
  moreover have "typeof h a \<noteq> typeof h b \<longrightarrow> \<not> equals h a b"
    by (simp add: equals_def isEqual_typeof)
  moreover have "equals heap_deep (JRef 0) (JRef 3)"
    by (simp add: equals_def isEqual_ref isEqual_prim own_prop_def own_keys_def heap_deep_def)
  moreover have "\<not> equals heap_deep (JRef 6) (JRef 7)"
    by (simp add: equals_def isEqual_ref isEqual_prim own_prop_def own_keys_def heap_deep_def)
  ultimately show ?thesis by blast
qed

text \<open>
  The two copies of \<^verbatim>\<open>{a: [1, {b: 2}]}\<close> are equal and structurally equivalent; the array
  \<^verbatim>\<open>[1, {b: 2}]\<close> (cell 1) and the object \<^verbatim>\<open>{b: 2}\<close> (cell 2) are of different kinds,
  \<^verbatim>\<open>{a: 1}\<close> and \<^verbatim>\<open>{a: '1'}\<close> differ in a value, and a number and a string are of
  different \<^verbatim>\<open>typeof\<close>: none of these is equal.
\<close>

theorem equals_reflexive_symmetric_witness:
  "equals heap_deep (JRef 3) (JRef 3)
   \<and> equals heap_deep (JRef 3) (JRef 0) = equals heap_deep (JRef 0) (JRef 3)
   \<and> equals heap_deep (JRef 3) (JRef 0)
   \<and> structurally_equivalent heap_deep (JRef 0) (JRef 3)
   \<and> \<not> structurally_equivalent heap_deep (JRef 1) (JRef 2)
   \<and> \<not> structurally_equivalent heap_deep (JRef 6) (JRef 7)
   \<and> typeof heap_deep (JNum 1) \<noteq> typeof heap_deep (JStr ''1'')
   \<and> \<not> equals heap_deep (JNum 1) (JStr ''1'')
   \<and> equals heap_nan JNaN JNaN"
proof -
  note A = equals_reflexive_symmetric [where h = heap_deep and a = "JRef 3" and b = "JRef 0"]
  note B = equals_reflexive_symmetric [where h = heap_deep and a = "JRef 1" and b = "JRef 2"]
  note C = equals_reflexive_symmetric [where h = heap_deep and a = "JRef 6" and b = "JRef 7"]
  note D = equals_reflexive_symmetric [where h = heap_deep and a = "JNum 1" and b = "JStr ''1''"]
  note E = equals_reflexive_symmetric [where h = heap_nan and a = JNaN and b = JNaN]
  note F = equals_reflexive_symmetric [where h = heap_deep and a = "JRef 0" and b = "JRef 3"]
  have kinds: "\<not> equals heap_deep (JRef 1) (JRef 2)"
    by (simp add: equals_def isEqual_ref isEqual_prim own_prop_def own_keys_def heap_deep_def)
  have types: "typeof heap_deep (JNum 1) \<noteq> typeof heap_deep (JStr ''1'')"
    by (simp add: typeof_def)
  have "equals heap_deep (JRef 3) (JRef 3)" using A by blast
  moreover have "equals heap_deep (JRef 3) (JRef 0) = equals heap_deep (JRef 0) (JRef 3)"
    using A by blast
  moreover have "equals heap_deep (JRef 3) (JRef 0)" using A by blast
  moreover have "structurally_equivalent heap_deep (JRef 0) (JRef 3)" using F by blast
  moreover have "\<not> structurally_equivalent heap_deep (JRef 1) (JRef 2)" using B kinds by blast
  moreover have "\<not> structurally_equivalent heap_deep (JRef 6) (JRef 7)" using C by blast
  moreover have "\<not> equals heap_deep (JNum 1) (JStr ''1'')" using D types by blast
  moreover have "equals heap_nan JNaN JNaN" using E by blast
  ultimately show ?thesis using types by blast
qed

text \<open>
  C9, as the code has it. The claim reads: \<^verbatim>\<open>assign(assign(s, c), c)\<close> is the very
  reference \<^verbatim>\<open>assign(s, c)\<close> returned. That holds for every change set none of whose values
  is \<^verbatim>\<open>NaN\<close> and none of whose keys mapped to \<^verbatim>\<open>undefined\<close> names a member that \<open>s\<close>
  inherits: the second call then allocates nothing and changes nothing.
\<close>

theorem assign_idempotent_without_nan:
  assumes "state_object h s" and "state_object h c"
    and "JNaN \<notin> set (map snd (props (h ! c)))"
    and "\<forall>k \<in> set (own_keys (h ! c)).
           get_prop h (h ! c) k = JUndefined \<longrightarrow> proto_prop h (h ! s) k = JUndefined"
  shows "case assign h s c of (r, h') \<Rightarrow> assign h' r c = (r, h')"
proof -
  have live: "s < length h" "c < length h" and plain: "kind (h ! s) = PlainObject"
    and dist: "distinct (own_keys (h ! c))"
    using assms(1,2) by (simp_all add: state_object_def)
  obtain r h' where a: "assign h s c = (r, h')" by (cases "assign h s c")
  note run = a [unfolded assign_def]
  from assign_loop_frame [OF live(1) run] obtain news where news: "h' = h @ news" by blast
  have same_c: "h' ! c = h ! c" using live(2) news by (simp add: nth_append)
  have own: "\<forall>k \<in> set (own_keys (h ! c)). hasOwnProperty (h ! c) k"
    by (simp add: hasOwnProperty_keys)
  have val: "get_prop g (h ! c) k = own_prop (h ! c) k" if "k \<in> set (own_keys (h ! c))" for g k
    using that by (simp add: get_prop_own_key hasOwnProperty_keys)
  have ok: "\<forall>k \<in> set (own_keys (h ! c)). own_prop (h ! c) k \<noteq> JNaN
           \<and> (own_prop (h ! c) k = JUndefined \<longrightarrow> proto_prop h (h ! s) k = JUndefined)"
  proof
    fix k assume k: "k \<in> set (own_keys (h ! c))"
    then obtain v where v: "map_of (props (h ! c)) k = Some v"
      using own by (auto simp: hasOwnProperty_def)
    then have "(k, v) \<in> set (props (h ! c))" by (rule map_of_SomeD)
    then have "v \<in> set (map snd (props (h ! c)))" by force
    then have "v \<noteq> JNaN" using assms(3) by blast
    then have "own_prop (h ! c) k \<noteq> JNaN" using v by (simp add: own_prop_def)
    then show "own_prop (h ! c) k \<noteq> JNaN
           \<and> (own_prop (h ! c) k = JUndefined \<longrightarrow> proto_prop h (h ! s) k = JUndefined)"
      using assms(4) k val [OF k, of h] by simp
  qed
  note post = assign_loop_post [OF live plain dist own ok run]
  have "\<forall>k \<in> set (own_keys (h ! c)).
          strict_eq (get_prop h' (h' ! r) k) (get_prop h' (h' ! c) k)
        \<and> \<not> (get_prop h' (h' ! c) k = JUndefined \<and> hasOwnProperty (h' ! r) k)"
    using post val by (simp add: same_c)
  then have "assign_loop h' r c r (own_keys (h ! c)) = (r, h')"
    by (rule assign_loop_noop)
  then show ?thesis unfolding a by (simp add: assign_def same_c)
qed

text \<open>
  The state \<^verbatim>\<open>{a: 1, b: 2, c: 3}\<close> with the change set \<^verbatim>\<open>{a: 10, b: 20, c: 3}\<close>.
\<close>

theorem assign_idempotent_without_nan_witness:
  "state_object heap_batch 0 \<and> state_object heap_batch 2
   \<and> JNaN \<notin> set (map snd (props (heap_batch ! 2)))
   \<and> list_all (\<lambda>k. get_prop heap_batch (heap_batch ! 2) k \<noteq> JUndefined) (own_keys (heap_batch ! 2))
   \<and> fst (assign heap_batch 0 2) = 5
   \<and> assign (snd (assign heap_batch 0 2)) 5 2 = (5, snd (assign heap_batch 0 2))"
  using assign_idempotent_without_nan [of heap_batch 0 2]
  by (simp add: ev heap_batch_def)

text \<open>
  C9 as stated fails in two ways. For the change set \<^verbatim>\<open>{a: NaN}\<close>, \<^verbatim>\<open>NaN !== NaN\<close> holds,
  so the second call copies again and returns cell 3 where the first returned cell 2. For
  the state \<^verbatim>\<open>{b: 2}\<close> and the change set \<^verbatim>\<open>{toString: undefined}\<close>, the first call
  returns \<^verbatim>\<open>{b: 2, toString: undefined}\<close> (cell 14), as the inherited \<^verbatim>\<open>toString\<close> is not
  \<^verbatim>\<open>undefined\<close>; the second call finds the own property, deletes it in another copy and
  returns cell 15.
\<close>

theorem assign_nan_counterexample:
  "state_object heap_nan 0 \<and> state_object heap_nan 1
   \<and> fst (assign heap_nan 0 1) = 2
   \<and> fst (assign (snd (assign heap_nan 0 1)) 2 1) = 3
   \<and> state_object heap_realm 12 \<and> state_object heap_realm 13
   \<and> JNaN \<notin> set (map snd (props (heap_realm ! 13)))
   \<and> assign heap_realm 12 13
       = (14, heap_realm @ [\<lparr>kind = PlainObject, props = [(''b'', JNum 2), (''toString'', JUndefined)]\<rparr>])
   \<and> fst (assign (snd (assign heap_realm 12 13)) 14 13) = 15"
  by (simp add: ev heap_nan_def heap_realm_def)

text \<open>
  C10: \<^verbatim>\<open>toState\<close> returns \<^verbatim>\<open>undefined\<close>, \<^verbatim>\<open>null\<close>, \<^verbatim>\<open>false\<close>, \<^verbatim>\<open>0\<close>, \<^verbatim>\<open>NaN\<close> and the
  empty string unchanged, whatever calling a function would do and whatever the store
  holds: nothing is called and no member is read.
\<close>

theorem toState_falsy_unchanged:
  "toState call h JUndefined = Inr (JUndefined, h)
   \<and> toState call h JNull = Inr (JNull, h)
   \<and> toState call h (JBool False) = Inr (JBool False, h)
   \<and> toState call h (JNum 0) = Inr (JNum 0, h)
   \<and> toState call h JNaN = Inr (JNaN, h)
   \<and> toState call h (JStr []) = Inr (JStr [], h)"
  by (simp add: toState_def truthy_def)

theorem toState_falsy_unchanged_witness:
  "toState (\<lambda>f h. Inl ''thrown'') heap_store JUndefined = Inr (JUndefined, heap_store)
   \<and> toState (\<lambda>f h. Inl ''thrown'') heap_store JNaN = Inr (JNaN, heap_store)
   \<and> toState (\<lambda>f h. Inl ''thrown'') heap_store (JNum 0) = Inr (JNum 0, heap_store)"
  using toState_falsy_unchanged [where h = heap_store and call = "\<lambda>f h. Inl ''thrown''"]
  by simp

end
